theory Spec2Isabelle
  imports Main "HOL-Library.Sublist" "HOL-Library.Multiset"
begin

section \<open>The daily news agent (\<^verbatim>\<open>src/news_agent.py\<close>)\<close>

text \<open>
  A shallow embedding of the pure parts of \<^verbatim>\<open>news_agent.py\<close>: the settings
  resolution, the region table, the feed URL, the feed plan, the recency and keyword
  filters, and the deduplicate / sort / cap tail of \<^verbatim>\<open>main\<close>.

  Conventions of the model.
  \<^item> A Python \<^verbatim>\<open>str\<close> is a \<^typ>\<open>string\<close>, read as the bytes of its UTF-8 encoding.
  \<^item> \<^verbatim>\<open>str.lower\<close> and \<^verbatim>\<open>str.upper\<close> use the case tables of Python, which are not part of
    the repository: a function that calls one of them takes it as the parameter
    \<open>str_lower\<close> or \<open>str_upper\<close>. What is known of them is stated where it is used: on a
    string of ASCII characters they are \<open>ascii_lower\<close> and \<open>ascii_upper\<close> below.
  \<^item> The configuration is the dictionary \<^verbatim>\<open>yaml.safe_load\<close> returned, with typed
    entries; an absent key is \<open>None\<close>, so that \<^verbatim>\<open>config.get(key, default)\<close> is a case
    distinction on the option. A key that is present with a value of another type is
    outside the model.
  \<^item> A \<^verbatim>\<open>datetime\<close> is the number of microseconds since the epoch. Python represents
    the years 1 to 9999 only, and building a value outside this range raises; the model
    returns an error there.
  \<^item> The clock (\<^verbatim>\<open>datetime.now\<close>), the process environment (\<^verbatim>\<open>os.getenv\<close>) and the
    local time zone of the machine (\<^verbatim>\<open>time.timezone\<close>) are parameters of the functions
    that read them.
\<close>

subsection \<open>Strings\<close>

text \<open>Lower- and upper-casing of the ASCII letters; every other byte is kept.\<close>

definition ascii_lower_char :: "char \<Rightarrow> char" where
  "ascii_lower_char c =
     (let n = (of_char c :: nat) in if 65 \<le> n \<and> n \<le> 90 then char_of (n + 32) else c)"

definition ascii_upper_char :: "char \<Rightarrow> char" where
  "ascii_upper_char c =
     (let n = (of_char c :: nat) in if 97 \<le> n \<and> n \<le> 122 then char_of (n - 32) else c)"

definition ascii_lower :: "string \<Rightarrow> string" where
  "ascii_lower s = map ascii_lower_char s"

definition ascii_upper :: "string \<Rightarrow> string" where
  "ascii_upper s = map ascii_upper_char s"

definition is_ascii :: "string \<Rightarrow> bool" where
  "is_ascii s = list_all (\<lambda>c. (of_char c :: nat) < 128) s"

text \<open>Python's \<^verbatim>\<open>k in t\<close> on strings: \<open>k\<close> occurs in \<open>t\<close> as a contiguous substring.\<close>

definition str_in :: "string \<Rightarrow> string \<Rightarrow> bool" where
  "str_in k t = sublist k t"

text \<open>
  Occurrence of a keyword in a text without regard to the case of the ASCII letters, in
  the words of the specification and without any case conversion: two characters are the
  same letter when they are equal or are the capital and the small form of one letter;
  \<open>k\<close> occurs in \<open>t\<close> when it matches, letter by letter, at some position of \<open>t\<close>.
\<close>

definition same_letter :: "char \<Rightarrow> char \<Rightarrow> bool" where
  "same_letter a b =
     (a = b \<or>
      (let m = (of_char a :: nat); n = (of_char b :: nat) in
         (65 \<le> m \<and> m \<le> 90 \<and> n = m + 32) \<or> (65 \<le> n \<and> n \<le> 90 \<and> m = n + 32)))"

fun starts_ignoring_case :: "string \<Rightarrow> string \<Rightarrow> bool" where
  "starts_ignoring_case [] t = True"
| "starts_ignoring_case (a # k) [] = False"
| "starts_ignoring_case (a # k) (b # t) = (same_letter a b \<and> starts_ignoring_case k t)"

fun occurs_ignoring_case :: "string \<Rightarrow> string \<Rightarrow> bool" where
  "occurs_ignoring_case k [] = (k = [])"
| "occurs_ignoring_case k (b # t) =
     (starts_ignoring_case k (b # t) \<or> occurs_ignoring_case k t)"

subsection \<open>Python values and truthiness\<close>

text \<open>The scalar values a setting can have: \<^verbatim>\<open>None\<close>, a string, an integer, a boolean.\<close>

datatype pyval = PNone | PStr string | PInt int | PBool bool

fun truthy :: "pyval \<Rightarrow> bool" where
  "truthy PNone = False"
| "truthy (PStr s) = (s \<noteq> [])"
| "truthy (PInt i) = (i \<noteq> 0)"
| "truthy (PBool b) = b"

text \<open>\<^verbatim>\<open>a or b\<close>: the left operand when it is truthy, else the right one.\<close>

definition py_or :: "pyval \<Rightarrow> pyval \<Rightarrow> pyval" where
  "py_or a b = (if truthy a then a else b)"

text \<open>\<^verbatim>\<open>dict.get(key, default)\<close> on an entry that is absent (\<open>None\<close>) or present.\<close>

definition get_or :: "'a option \<Rightarrow> 'a \<Rightarrow> 'a" where
  "get_or entry dflt = (case entry of None \<Rightarrow> dflt | Some v \<Rightarrow> v)"

subsection \<open>Configuration\<close>

record sector =
  sec_name :: "string option"
  sec_queries :: "string list option"

record config =
  cfg_regions :: "string list option"
  cfg_sectors :: "sector list option"
  cfg_queries :: "string list option"
  cfg_email :: "(string \<times> pyval) list option"

text \<open>\<^verbatim>\<open>os.getenv(key)\<close>: the variable's value, or \<^verbatim>\<open>None\<close>.\<close>

definition os_getenv :: "(string \<rightharpoonup> string) \<Rightarrow> string \<Rightarrow> pyval" where
  "os_getenv environ key = (case environ key of None \<Rightarrow> PNone | Some v \<Rightarrow> PStr v)"

text \<open>\<^verbatim>\<open>config.get("email", {}).get(k)\<close>: \<^verbatim>\<open>None\<close> when the section or the key is absent.\<close>

definition email_get :: "config \<Rightarrow> string \<Rightarrow> pyval" where
  "email_get config k = get_or (map_of (get_or (cfg_email config) []) k) PNone"

definition env_or_config ::
  "(string \<Rightarrow> string) \<Rightarrow> (string \<rightharpoonup> string) \<Rightarrow> config \<Rightarrow> string \<Rightarrow> pyval \<Rightarrow> pyval" where
  "env_or_config str_lower environ config key dflt =
     py_or (py_or (os_getenv environ key) (email_get config (str_lower key))) dflt"

subsection \<open>Region table and feed URL\<close>

type_synonym params = "string \<times> string \<times> string"

definition mapping :: "(string \<times> params) list" where
  "mapping =
     [(''US'', (''en-US'', ''US'', ''US:en'')),
      (''GB'', (''en-GB'', ''GB'', ''GB:en'')),
      (''CA'', (''en-CA'', ''CA'', ''CA:en'')),
      (''AU'', (''en-AU'', ''AU'', ''AU:en'')),
      (''IN'', (''en-IN'', ''IN'', ''IN:en'')),
      (''FR'', (''fr'', ''FR'', ''FR:fr'')),
      (''DE'', (''de'', ''DE'', ''DE:de'')),
      (''ES'', (''es'', ''ES'', ''ES:es'')),
      (''IT'', (''it'', ''IT'', ''IT:it'')),
      (''BR'', (''pt-BR'', ''BR'', ''BR:pt''))]"

definition iso_region_to_params :: "(string \<Rightarrow> string) \<Rightarrow> string \<Rightarrow> params" where
  "iso_region_to_params str_upper region_code =
     get_or (map_of mapping (str_upper region_code)) (''en-US'', ''US'', ''US:en'')"

text \<open>
  \<^verbatim>\<open>urllib.parse.quote_plus\<close> with its default arguments: letters, digits and
  \<^verbatim>\<open>_.-~\<close> stay, a space becomes \<^verbatim>\<open>+\<close>, every other byte becomes \<^verbatim>\<open>%XX\<close> in upper-case
  hexadecimal.
\<close>

definition hex_digit :: "nat \<Rightarrow> char" where
  "hex_digit d = ''0123456789ABCDEF'' ! (d mod 16)"

definition always_safe :: "char \<Rightarrow> bool" where
  "always_safe c =
     (let n = (of_char c :: nat) in
        (65 \<le> n \<and> n \<le> 90) \<or> (97 \<le> n \<and> n \<le> 122) \<or> (48 \<le> n \<and> n \<le> 57)
        \<or> c \<in> set ''_.-~'')"

definition quote_char :: "char \<Rightarrow> string" where
  "quote_char c =
     (if always_safe c then [c]
      else if c = CHR '' '' then ''+''
      else [CHR ''%'', hex_digit (of_char c div 16), hex_digit (of_char c)])"

definition quote_plus :: "string \<Rightarrow> string" where
  "quote_plus s = concat (map quote_char s)"

definition google_news_search_feed :: "(string \<Rightarrow> string) \<Rightarrow> string \<Rightarrow> string \<Rightarrow> string" where
  "google_news_search_feed str_upper query region_code =
     (case iso_region_to_params str_upper region_code of (hl, gl, ceid) \<Rightarrow>
        let q = quote_plus query in
        ''https://news.google.com/rss/search?q='' @ q @ ''+when:1d&hl='' @ hl
          @ ''&gl='' @ gl @ ''&ceid='' @ ceid)"

subsection \<open>Feed plan (\<^verbatim>\<open>main\<close>, lines 108-109 and 128-142)\<close>

type_synonym feed = "string \<times> string \<times> string"

definition build_feeds :: "(string \<Rightarrow> string) \<Rightarrow> config \<Rightarrow> feed list" where
  "build_feeds str_upper config =
     (let regions = get_or (cfg_regions config) [''US''];
          sectors = get_or (cfg_sectors config) []
      in if sectors = [] then
           (let base_queries = get_or (cfg_queries config) [''technology'', ''business'']
            in concat (map (\<lambda>r.
                 map (\<lambda>q. (''General'', r, google_news_search_feed str_upper q r)) base_queries)
                 regions))
         else
           concat (map (\<lambda>sector.
             let sector_name = get_or (sec_name sector) ''Sector'';
                 queries = get_or (sec_queries sector) []
             in concat (map (\<lambda>r.
                  map (\<lambda>q. (sector_name, r, google_news_search_feed str_upper q r)) queries)
                  regions))
             sectors))"

subsection \<open>Deduplication\<close>

fun uniq_loop :: "('a \<Rightarrow> 'k) \<Rightarrow> 'a list \<Rightarrow> 'k set \<Rightarrow> 'a list \<Rightarrow> 'a list" where
  "uniq_loop key [] seen res = res"
| "uniq_loop key (item # seq) seen res =
     (let k = key item in
        if k \<notin> seen then uniq_loop key seq (insert k seen) (res @ [item])
        else uniq_loop key seq seen res)"

definition uniq :: "'a list \<Rightarrow> ('a \<Rightarrow> 'k) \<Rightarrow> 'a list" where
  "uniq seq key = uniq_loop key seq {} []"

subsection \<open>Time and the recency filter\<close>

datatype error = OutOfRange

text \<open>
  The \<^verbatim>\<open>published_parsed\<close> of an entry: a \<^verbatim>\<open>time.struct_time\<close> holding the publish
  instant as a calendar tuple in UTC, with \<^verbatim>\<open>tm_isdst = 0\<close>. It is represented by the
  instant it denotes, in seconds since the epoch (\<^verbatim>\<open>calendar.timegm\<close> of the tuple;
  negative before 1970). It is a non-empty tuple, hence always truthy.
\<close>

datatype struct_time = StructTime (timegm: int)

text \<open>
  \<^verbatim>\<open>time.mktime\<close> reads the tuple as local standard time, not as UTC: on a machine whose
  zone lies \<open>tz_west\<close> seconds west of UTC (\<^verbatim>\<open>time.timezone\<close>: 0 for UTC, 18000 for
  \<^verbatim>\<open>TZ=EST5\<close>, -32400 for \<^verbatim>\<open>TZ=JST-9\<close>) it returns the seconds of the tuple plus
  \<open>tz_west\<close>.
\<close>

definition mktime :: "int \<Rightarrow> struct_time \<Rightarrow> int" where
  "mktime tz_west t = timegm t + tz_west"

text \<open>The first and the last representable \<^verbatim>\<open>datetime\<close>, in microseconds since the epoch:
  0001-01-01 00:00:00 and 9999-12-31 23:59:59.999999 (UTC).\<close>

definition datetime_min :: int where
  "datetime_min = - 62135596800 * 1000000"

definition datetime_max :: int where
  "datetime_max = 253402300799 * 1000000 + 999999"

definition representable :: "int \<Rightarrow> bool" where
  "representable us = (datetime_min \<le> us \<and> us \<le> datetime_max)"

text \<open>Every constructor of a \<^verbatim>\<open>datetime\<close> checks the range.\<close>

definition datetime_new :: "int \<Rightarrow> error + int" where
  "datetime_new us = (if representable us then Inr us else Inl OutOfRange)"

text \<open>\<^verbatim>\<open>datetime.fromtimestamp(seconds, tz=timezone.utc)\<close>.\<close>

definition fromtimestamp :: "int \<Rightarrow> error + int" where
  "fromtimestamp seconds = datetime_new (seconds * 1000000)"

text \<open>\<^verbatim>\<open>dt - timedelta(days=days)\<close>.\<close>

definition minus_days :: "int \<Rightarrow> int \<Rightarrow> error + int" where
  "minus_days dt days = datetime_new (dt - days * 86400 * 1000000)"

text \<open>\<open>now\<close> is the value of \<^verbatim>\<open>datetime.now(timezone.utc)\<close>, itself a \<^verbatim>\<open>datetime\<close>.\<close>

definition within_last_days :: "int \<Rightarrow> int \<Rightarrow> struct_time option \<Rightarrow> int \<Rightarrow> error + bool" where
  "within_last_days tz_west now published_parsed days =
     (case published_parsed of
        None \<Rightarrow> Inr True
      | Some pp \<Rightarrow>
          (case fromtimestamp (mktime tz_west pp) of
             Inl e \<Rightarrow> Inl e
           | Inr published_dt \<Rightarrow>
               (case minus_days now days of
                  Inl e \<Rightarrow> Inl e
                | Inr cutoff \<Rightarrow> Inr (published_dt \<ge> cutoff))))"

subsection \<open>Keyword filter\<close>

definition matches_keywords ::
  "(string \<Rightarrow> string) \<Rightarrow> string option \<Rightarrow> string list \<Rightarrow> string list \<Rightarrow> bool" where
  "matches_keywords str_lower text includes excludes =
     (let t = str_lower (get_or text '''') in
        if includes \<noteq> [] \<and> \<not> list_ex (\<lambda>k. str_in (str_lower k) t) includes then False
        else if excludes \<noteq> [] \<and> list_ex (\<lambda>k. str_in (str_lower k) t) excludes then False
        else True)"

subsection \<open>News records and the tail of \<^verbatim>\<open>main\<close> (lines 172-184)\<close>

record item =
  title :: string
  summary :: string
  link :: string
  source :: "string option"
  sector :: string
  region :: string
  published :: "string option"
  published_parsed :: "struct_time option"

text \<open>\<^verbatim>\<open>lambda x: x["link"] or x["title"]\<close>\<close>

definition dedup_key :: "item \<Rightarrow> string" where
  "dedup_key x = (if link x \<noteq> [] then link x else title x)"

text \<open>The nested function \<^verbatim>\<open>sort_key\<close> of \<^verbatim>\<open>main\<close>.\<close>

definition sort_key_item :: "int \<Rightarrow> item \<Rightarrow> int" where
  "sort_key_item tz_west x =
     (case published_parsed x of Some pp \<Rightarrow> mktime tz_west pp | None \<Rightarrow> 0)"

text \<open>
  \<^verbatim>\<open>list.sort(key=key, reverse=True)\<close>: the sort is stable, and with \<^verbatim>\<open>reverse=True\<close>
  the list is reversed, sorted (stably, ascending) and reversed again, so that records
  with equal keys keep their order.
\<close>

definition list_sort_reverse :: "('a \<Rightarrow> int) \<Rightarrow> 'a list \<Rightarrow> 'a list" where
  "list_sort_reverse key xs = rev (sort_key key (rev xs))"

text \<open>
  The slice \<^verbatim>\<open>xs[:stop]\<close>: a negative \<open>stop\<close> counts from the end, and the bound is
  clipped to the list.
\<close>

definition slice_to :: "'a list \<Rightarrow> int \<Rightarrow> 'a list" where
  "slice_to xs stop =
     (let n = int (length xs);
          s = (if stop < 0 then max (stop + n) 0 else min stop n)
      in take (nat s) xs)"

definition aggregate :: "int \<Rightarrow> item list \<Rightarrow> int \<Rightarrow> item list" where
  "aggregate tz_west items max_items =
     (let items = uniq items dedup_key;
          items = list_sort_reverse (sort_key_item tz_west) items;
          items = slice_to items max_items
      in items)"

subsection \<open>Example records\<close>

text \<open>A record with the given title, link and publish instant (in seconds since the
  epoch), for the concrete evaluations below.\<close>

definition example_item :: "string \<Rightarrow> string \<Rightarrow> int option \<Rightarrow> item" where
  "example_item t l seconds =
     \<lparr>title = t, summary = [], link = l, source = None, sector = ''General'',
      region = ''US'', published = None, published_parsed = map_option StructTime seconds\<rparr>"

section \<open>Properties\<close>

subsection \<open>ASCII case\<close>

lemma of_char_ascii_lower_char:
  "(of_char (ascii_lower_char c) :: nat) =
     (if 65 \<le> (of_char c :: nat) \<and> (of_char c :: nat) \<le> 90 then of_char c + 32 else of_char c)"
  by (simp add: ascii_lower_char_def Let_def)

lemma of_char_ascii_upper_char:
  "(of_char (ascii_upper_char c) :: nat) =
     (if 97 \<le> (of_char c :: nat) \<and> (of_char c :: nat) \<le> 122 then of_char c - 32 else of_char c)"
proof (cases "97 \<le> (of_char c :: nat) \<and> (of_char c :: nat) \<le> 122")
  case True
  then have "(of_char c - 32 :: nat) < 256"
    by arith
  then have "(of_char c - 32 :: nat) mod 256 = of_char c - 32"
    by (rule mod_less)
  with True show ?thesis
    by (simp add: ascii_upper_char_def Let_def)
next
  case False
  then show ?thesis
    by (auto simp add: ascii_upper_char_def Let_def)
qed

lemma lower_code_eq_iff:
  fixes m n :: nat
  shows "(if 65 \<le> m \<and> m \<le> 90 then m + 32 else m) = (if 65 \<le> n \<and> n \<le> 90 then n + 32 else n) \<longleftrightarrow>
         m = n \<or> (65 \<le> m \<and> m \<le> 90 \<and> n = m + 32) \<or> (65 \<le> n \<and> n \<le> 90 \<and> m = n + 32)"
  by (cases "65 \<le> m \<and> m \<le> 90"; cases "65 \<le> n \<and> n \<le> 90") (simp_all, arith+)

lemma upper_code_eq_iff:
  fixes m n :: nat
  shows "(if 97 \<le> m \<and> m \<le> 122 then m - 32 else m) = (if 97 \<le> n \<and> n \<le> 122 then n - 32 else n) \<longleftrightarrow>
         m = n \<or> (65 \<le> m \<and> m \<le> 90 \<and> n = m + 32) \<or> (65 \<le> n \<and> n \<le> 90 \<and> m = n + 32)"
  by (cases "97 \<le> m \<and> m \<le> 122"; cases "97 \<le> n \<and> n \<le> 122") (simp_all, arith+)

lemma same_letter_code:
  "same_letter a b \<longleftrightarrow>
     (of_char a :: nat) = of_char b \<or>
     (65 \<le> (of_char a :: nat) \<and> (of_char a :: nat) \<le> 90 \<and> (of_char b :: nat) = of_char a + 32) \<or>
     (65 \<le> (of_char b :: nat) \<and> (of_char b :: nat) \<le> 90 \<and> (of_char a :: nat) = of_char b + 32)"
  by (simp add: same_letter_def Let_def)

lemma same_letter_iff_lower:
  "same_letter a b \<longleftrightarrow> ascii_lower_char a = ascii_lower_char b"
proof -
  have "ascii_lower_char a = ascii_lower_char b \<longleftrightarrow>
        (of_char (ascii_lower_char a) :: nat) = of_char (ascii_lower_char b)"
    by simp
  also have "\<dots> \<longleftrightarrow> same_letter a b"
    by (simp only: of_char_ascii_lower_char lower_code_eq_iff same_letter_code)
  finally show ?thesis by simp
qed

lemma same_letter_iff_upper:
  "same_letter a b \<longleftrightarrow> ascii_upper_char a = ascii_upper_char b"
proof -
  have "ascii_upper_char a = ascii_upper_char b \<longleftrightarrow>
        (of_char (ascii_upper_char a) :: nat) = of_char (ascii_upper_char b)"
    by simp
  also have "\<dots> \<longleftrightarrow> same_letter a b"
    by (simp only: of_char_ascii_upper_char upper_code_eq_iff same_letter_code)
  finally show ?thesis by simp
qed

lemma same_letters_iff_upper:
  "list_all2 same_letter a b \<longleftrightarrow> ascii_upper a = ascii_upper b"
proof (induction a arbitrary: b)
  case Nil
  show ?case by (auto simp add: ascii_upper_def)
next
  case (Cons x a)
  show ?case
  proof (cases b)
    case Nil
    then show ?thesis by (simp add: ascii_upper_def)
  next
    case (Cons y b')
    with Cons.IH [of b'] show ?thesis
      by (simp add: ascii_upper_def same_letter_iff_upper)
  qed
qed

lemma ascii_upper_char_idem: "ascii_upper_char (ascii_upper_char c) = ascii_upper_char c"
proof -
  have "(of_char (ascii_upper_char (ascii_upper_char c)) :: nat) = of_char (ascii_upper_char c)"
    unfolding of_char_ascii_upper_char by auto
  then show ?thesis by simp
qed

lemma ascii_upper_idem: "ascii_upper (ascii_upper s) = ascii_upper s"
  by (simp add: ascii_upper_def ascii_upper_char_idem)

lemma starts_ignoring_case_iff:
  "starts_ignoring_case k t \<longleftrightarrow> prefix (ascii_lower k) (ascii_lower t)"
  by (induction k t rule: starts_ignoring_case.induct)
    (simp_all add: ascii_lower_def same_letter_iff_lower)

lemma occurs_ignoring_case_iff:
  "occurs_ignoring_case k t \<longleftrightarrow> sublist (ascii_lower k) (ascii_lower t)"
proof (induction t)
  case Nil
  show ?case by (simp add: ascii_lower_def)
next
  case (Cons b t)
  have "sublist (ascii_lower k) (ascii_lower (b # t)) \<longleftrightarrow>
        prefix (ascii_lower k) (ascii_lower (b # t)) \<or> sublist (ascii_lower k) (ascii_lower t)"
    by (simp add: ascii_lower_def sublist_Cons_right)
  with Cons show ?case
    by (simp add: starts_ignoring_case_iff)
qed

subsection \<open>Settings resolution\<close>

text \<open>
  Claim C9. \<^verbatim>\<open>env_or_config\<close> returns the first of the override (the environment
  variable), the configured value (the entry of the \<^verbatim>\<open>email\<close> section under the
  lower-cased key) and the fallback that is present and non-empty: the override when it
  is a non-empty string; else the configured value when it is truthy (for a string:
  non-empty; an absent entry is \<^verbatim>\<open>None\<close>); else the fallback, whatever it is.
  This holds whatever \<^verbatim>\<open>str.lower\<close> computes.
\<close>

theorem env_or_config_first_nonempty:
  "(environ key = Some v \<and> v \<noteq> [] \<longrightarrow>
      env_or_config str_lower environ config key dflt = PStr v) \<and>
   ((environ key = None \<or> environ key = Some []) \<and>
      truthy (email_get config (str_lower key)) \<longrightarrow>
      env_or_config str_lower environ config key dflt = email_get config (str_lower key)) \<and>
   ((environ key = None \<or> environ key = Some []) \<and>
      \<not> truthy (email_get config (str_lower key)) \<longrightarrow>
      env_or_config str_lower environ config key dflt = dflt)"
  by (auto simp add: env_or_config_def py_or_def os_getenv_def)

theorem env_or_config_first_nonempty_witness:
  "env_or_config ascii_lower [''SMTP_USER'' \<mapsto> ''me@env'']
     \<lparr>cfg_regions = None, cfg_sectors = None, cfg_queries = None,
       cfg_email = Some [(''smtp_user'', PStr ''me@cfg'')]\<rparr> ''SMTP_USER'' PNone = PStr ''me@env'' \<and>
   env_or_config ascii_lower [''SMTP_USER'' \<mapsto> '''']
     \<lparr>cfg_regions = None, cfg_sectors = None, cfg_queries = None,
       cfg_email = Some [(''smtp_user'', PStr ''me@cfg'')]\<rparr> ''SMTP_USER'' PNone = PStr ''me@cfg'' \<and>
   env_or_config ascii_lower Map.empty
     \<lparr>cfg_regions = None, cfg_sectors = None, cfg_queries = None,
       cfg_email = Some [(''smtp_port'', PStr '''')]\<rparr> ''SMTP_PORT'' (PStr ''465'') = PStr ''465''"
proof -
  let ?c1 = "\<lparr>cfg_regions = None, cfg_sectors = None, cfg_queries = None,
       cfg_email = Some [(''smtp_user'', PStr ''me@cfg'')]\<rparr>"
  let ?c2 = "\<lparr>cfg_regions = None, cfg_sectors = None, cfg_queries = None,
       cfg_email = Some [(''smtp_port'', PStr '''')]\<rparr>"
  have k1: "ascii_lower ''SMTP_USER'' = ''smtp_user''" by code_simp
  have k2: "ascii_lower ''SMTP_PORT'' = ''smtp_port''" by code_simp
  have e1: "email_get ?c1 ''smtp_user'' = PStr ''me@cfg''"
    by (simp add: email_get_def get_or_def)
  have e2: "email_get ?c2 ''smtp_port'' = PStr ''''"
    by (simp add: email_get_def get_or_def)
  from env_or_config_first_nonempty
      [of "[''SMTP_USER'' \<mapsto> ''me@env'']" "''SMTP_USER''" "''me@env''" ascii_lower ?c1 PNone]
    env_or_config_first_nonempty
      [of "[''SMTP_USER'' \<mapsto> '''']" "''SMTP_USER''" "''x''" ascii_lower ?c1 PNone]
    env_or_config_first_nonempty
      [of Map.empty "''SMTP_PORT''" "''x''" ascii_lower ?c2 "PStr ''465''"]
    k1 k2 e1 e2
  show ?thesis by simp
qed

lemma email_get_present:
  "cfg_email config = Some m \<Longrightarrow> map_of m k = Some v \<Longrightarrow> email_get config k = v"
  by (simp add: email_get_def get_or_def)

lemma email_get_absent:
  "cfg_email config = None \<or> (\<exists>m. cfg_email config = Some m \<and> map_of m k = None) \<Longrightarrow>
   email_get config k = PNone"
  by (auto simp add: email_get_def get_or_def)

subsection \<open>Region table\<close>

text \<open>
  Claim C8. \<^verbatim>\<open>iso_region_to_params\<close> is a total function on strings (the model has no
  error branch: \<^verbatim>\<open>str.upper\<close> and \<^verbatim>\<open>dict.get\<close> with a default cannot raise). Of
  \<^verbatim>\<open>str.upper\<close> two facts are used: it gives the same result for two strings that differ
  in the case of ASCII letters only, and on a string of ASCII characters it is
  \<open>ascii_upper\<close>. Then
  \<^item> two codes that are the same up to the case of their letters get the same triple;
  \<^item> a code of ASCII characters gets the triple the table has for its upper-cased form,
    or the default triple;
  \<^item> every code whose upper-cased form is not a key of the table gets the default triple
    \<^verbatim>\<open>("en-US", "US", "US:en")\<close>.
\<close>

theorem iso_region_to_params_lookup:
  "((\<forall>s. str_upper (ascii_upper s) = str_upper s) \<and> list_all2 same_letter c' c \<longrightarrow>
      iso_region_to_params str_upper c' = iso_region_to_params str_upper c) \<and>
   ((\<forall>s. is_ascii s \<longrightarrow> str_upper s = ascii_upper s) \<and> is_ascii c \<longrightarrow>
      iso_region_to_params str_upper c =
        get_or (map_of mapping (ascii_upper c)) (''en-US'', ''US'', ''US:en'')) \<and>
   (str_upper c \<notin> fst ` set mapping \<longrightarrow>
      iso_region_to_params str_upper c = (''en-US'', ''US'', ''US:en''))"
proof (intro conjI impI)
  assume a: "(\<forall>s. str_upper (ascii_upper s) = str_upper s) \<and> list_all2 same_letter c' c"
  then have "ascii_upper c' = ascii_upper c"
    by (simp add: same_letters_iff_upper)
  then have "str_upper (ascii_upper c') = str_upper (ascii_upper c)"
    by simp
  with a have "str_upper c' = str_upper c"
    by simp
  then show "iso_region_to_params str_upper c' = iso_region_to_params str_upper c"
    by (simp add: iso_region_to_params_def)
next
  assume "(\<forall>s. is_ascii s \<longrightarrow> str_upper s = ascii_upper s) \<and> is_ascii c"
  then have "str_upper c = ascii_upper c"
    by simp
  then show "iso_region_to_params str_upper c =
      get_or (map_of mapping (ascii_upper c)) (''en-US'', ''US'', ''US:en'')"
    by (simp add: iso_region_to_params_def)
next
  assume "str_upper c \<notin> fst ` set mapping"
  then have "map_of mapping (str_upper c) = None"
    by (simp add: map_of_eq_None_iff)
  then show "iso_region_to_params str_upper c = (''en-US'', ''US'', ''US:en'')"
    by (simp add: iso_region_to_params_def get_or_def)
qed

theorem iso_region_to_params_lookup_witness:
  "list_all2 same_letter ''gb'' ''Gb'' \<and>
   iso_region_to_params ascii_upper ''gb'' = iso_region_to_params ascii_upper ''Gb'' \<and>
   is_ascii ''Gb'' \<and>
   iso_region_to_params ascii_upper ''Gb'' = (''en-GB'', ''GB'', ''GB:en'') \<and>
   ascii_upper ''zz'' \<notin> fst ` set mapping \<and>
   iso_region_to_params ascii_upper ''zz'' = (''en-US'', ''US'', ''US:en'')"
proof -
  have h1: "\<forall>s. ascii_upper (ascii_upper s) = ascii_upper s"
    by (simp add: ascii_upper_idem)
  have h2: "\<forall>s. is_ascii s \<longrightarrow> ascii_upper s = ascii_upper s"
    by simp
  have l: "list_all2 same_letter ''gb'' ''Gb''"
    by code_simp
  have a: "is_ascii ''Gb''"
    by code_simp
  have u: "ascii_upper ''zz'' \<notin> fst ` set mapping"
    by code_simp
  have g: "get_or (map_of mapping (ascii_upper ''Gb'')) (''en-US'', ''US'', ''US:en'') =
      (''en-GB'', ''GB'', ''GB:en'')"
    by code_simp
  from iso_region_to_params_lookup [of ascii_upper "''gb''" "''Gb''"]
    iso_region_to_params_lookup [of ascii_upper "''zz''" "''zz''"] h1 h2 l a u g
  show ?thesis by simp
qed

subsection \<open>Feed plan\<close>

text \<open>
  Claim C1, as amended. When there are no sectors and the configuration has no
  \<^verbatim>\<open>queries\<close> key, the plan has, for each region in order, one entry for
  \<^verbatim>\<open>"technology"\<close> and one for \<^verbatim>\<open>"business"\<close>, both labelled \<^verbatim>\<open>"General"\<close>. When the
  key is present its list is used as it is, so that an empty list gives an empty plan.
  This holds whatever \<^verbatim>\<open>str.upper\<close> computes.
\<close>

theorem build_feeds_default_queries:
  "get_or (cfg_sectors config) [] = [] \<longrightarrow>
     (cfg_queries config = None \<longrightarrow>
        build_feeds str_upper config =
          concat (map (\<lambda>r. [(''General'', r, google_news_search_feed str_upper ''technology'' r),
                            (''General'', r, google_news_search_feed str_upper ''business'' r)])
                   (get_or (cfg_regions config) [''US'']))) \<and>
     (\<forall>qs. cfg_queries config = Some qs \<longrightarrow>
        build_feeds str_upper config =
          concat (map (\<lambda>r. map (\<lambda>q. (''General'', r, google_news_search_feed str_upper q r)) qs)
                   (get_or (cfg_regions config) [''US''])))"
  by (simp add: build_feeds_def Let_def get_or_def)

theorem build_feeds_default_queries_witness:
  "build_feeds ascii_upper
     \<lparr>cfg_regions = Some [''US'', ''FR''], cfg_sectors = None, cfg_queries = None, cfg_email = None\<rparr> =
     [(''General'', ''US'', ''https://news.google.com/rss/search?q=technology+when:1d&hl=en-US&gl=US&ceid=US:en''),
      (''General'', ''US'', ''https://news.google.com/rss/search?q=business+when:1d&hl=en-US&gl=US&ceid=US:en''),
      (''General'', ''FR'', ''https://news.google.com/rss/search?q=technology+when:1d&hl=fr&gl=FR&ceid=FR:fr''),
      (''General'', ''FR'', ''https://news.google.com/rss/search?q=business+when:1d&hl=fr&gl=FR&ceid=FR:fr'')] \<and>
   build_feeds ascii_upper
     \<lparr>cfg_regions = None, cfg_sectors = Some [], cfg_queries = Some [''ai''], cfg_email = None\<rparr> =
     [(''General'', ''US'', ''https://news.google.com/rss/search?q=ai+when:1d&hl=en-US&gl=US&ceid=US:en'')]"
proof -
  have u: "google_news_search_feed ascii_upper ''technology'' ''US'' = ''https://news.google.com/rss/search?q=technology+when:1d&hl=en-US&gl=US&ceid=US:en''"
    "google_news_search_feed ascii_upper ''business'' ''US'' = ''https://news.google.com/rss/search?q=business+when:1d&hl=en-US&gl=US&ceid=US:en''"
    "google_news_search_feed ascii_upper ''technology'' ''FR'' = ''https://news.google.com/rss/search?q=technology+when:1d&hl=fr&gl=FR&ceid=FR:fr''"
    "google_news_search_feed ascii_upper ''business'' ''FR'' = ''https://news.google.com/rss/search?q=business+when:1d&hl=fr&gl=FR&ceid=FR:fr''"
    "google_news_search_feed ascii_upper ''ai'' ''US'' = ''https://news.google.com/rss/search?q=ai+when:1d&hl=en-US&gl=US&ceid=US:en''"
    by code_simp+
  from build_feeds_default_queries [of "\<lparr>cfg_regions = Some [''US'', ''FR''], cfg_sectors = None, cfg_queries = None, cfg_email = None\<rparr>" ascii_upper]
    build_feeds_default_queries [of "\<lparr>cfg_regions = None, cfg_sectors = Some [], cfg_queries = Some [''ai''], cfg_email = None\<rparr>" ascii_upper]
  show ?thesis by (simp add: get_or_def u)
qed

text \<open>
  Claim C1 as stated fails: with no sectors and a \<^verbatim>\<open>queries\<close> list that is present and
  empty, the built-in pair is not used and the plan is empty.
\<close>

theorem build_feeds_empty_queries_counterexample:
  "build_feeds ascii_upper
     \<lparr>cfg_regions = Some [''US''], cfg_sectors = Some [], cfg_queries = Some [], cfg_email = None\<rparr> = []"
  by (simp add: build_feeds_def get_or_def)

subsection \<open>Cap\<close>

text \<open>
  Claim C2, as amended. For \<open>m \<ge> 0\<close> the slice \<^verbatim>\<open>items[:m]\<close> is the first \<open>m\<close> records
  (the whole list when it is shorter), hence empty for \<open>m = 0\<close>. For \<open>m < 0\<close> it is the
  list without its last \<open>- m\<close> records. No integer raises an error (the model has no
  error branch).
\<close>

theorem slice_to_cap:
  "(0 \<le> m \<longrightarrow> slice_to xs m = take (nat m) xs) \<and>
   slice_to xs 0 = [] \<and>
   (m < 0 \<longrightarrow> slice_to xs m = take (length xs - nat (- m)) xs)"
  by (auto simp add: slice_to_def Let_def min_def max_def nat_diff_distrib' intro: arg_cong2[where f=take])

theorem slice_to_cap_witness:
  "slice_to [''a'', ''b'', ''c''] 2 = [''a'', ''b''] \<and> slice_to [''a'', ''b'', ''c''] 7 = [''a'', ''b'', ''c''] \<and>
   slice_to [''a'', ''b'', ''c''] (- 2) = [''a'']"
  using slice_to_cap [of 2 "[''a'', ''b'', ''c'']"] slice_to_cap [of 7 "[''a'', ''b'', ''c'']"]
    slice_to_cap [of "- 2" "[''a'', ''b'', ''c'']"]
  by simp

text \<open>
  Claim C2 as stated fails: a negative bound does not give the empty list.
\<close>

theorem slice_to_negative_counterexample:
  "slice_to [''a'', ''b'', ''c''] (- 1) = [''a'', ''b'']"
  by (simp add: slice_to_def)

subsection \<open>Deduplication\<close>

lemma uniq_loop_append:
  "uniq_loop key xs seen (res @ res') = res @ uniq_loop key xs seen res'"
  by (induction xs arbitrary: seen res') (simp_all add: Let_def)

lemma uniq_loop_Cons:
  "uniq_loop key (x # xs) seen [] =
     (if key x \<in> seen then uniq_loop key xs seen []
      else x # uniq_loop key xs (insert (key x) seen) [])"
  using uniq_loop_append [of key xs "insert (key x) seen" "[x]" "[]"]
  by (simp add: Let_def)

lemma uniq_loop_keys_fresh:
  "key ` set (uniq_loop key xs seen []) \<inter> seen = {}"
proof (induction xs arbitrary: seen)
  case Nil
  show ?case by simp
next
  case (Cons x xs)
  from Cons [of seen] Cons [of "insert (key x) seen"] show ?case
    by (auto simp add: uniq_loop_Cons simp del: uniq_loop.simps(2))
qed

lemma uniq_loop_distinct:
  "distinct (map key (uniq_loop key xs seen []))"
proof (induction xs arbitrary: seen)
  case Nil
  show ?case by simp
next
  case (Cons x xs)
  from uniq_loop_keys_fresh [of key xs "insert (key x) seen"]
  have "key x \<notin> key ` set (uniq_loop key xs (insert (key x) seen) [])"
    by blast
  with Cons show ?case
    by (simp add: uniq_loop_Cons del: uniq_loop.simps(2))
qed

lemma uniq_loop_subseq:
  "subseq (uniq_loop key xs seen []) xs"
  by (induction xs arbitrary: seen)
    (auto simp add: uniq_loop_Cons simp del: uniq_loop.simps(2) intro: list_emb_Cons)

lemma uniq_loop_find:
  "find (\<lambda>x. key x = k) (uniq_loop key xs seen []) =
     (if k \<in> seen then None else find (\<lambda>x. key x = k) xs)"
proof (induction xs arbitrary: seen)
  case Nil
  show ?case by simp
next
  case (Cons x xs)
  show ?case
    by (auto simp add: uniq_loop_Cons Cons simp del: uniq_loop.simps(2))
qed

lemma dedup_key_fun: "dedup_key = (\<lambda>y. if link y = [] then title y else link y)"
  by (rule ext) (simp add: dedup_key_def)

text \<open>
  Claim C6. The deduplication of \<^verbatim>\<open>main\<close> is \<^verbatim>\<open>uniq\<close> with the key of line 173: the
  link of the record when it is not empty, else its title. With this key written out: in
  the result no two records have the same key; the result is the input with records left
  out and the order kept; and for every key, the first record with this key is the same
  in the result as in the input, so the record kept is the first one met and every later
  record with an equal key is dropped. Nothing raises (the model has no error branch).
\<close>

theorem uniq_dedup_key_first_wins:
  "dedup_key x = (if link x = [] then title x else link x) \<and>
   distinct (map (\<lambda>y. if link y = [] then title y else link y) (uniq items dedup_key)) \<and>
   subseq (uniq items dedup_key) items \<and>
   (\<forall>k. find (\<lambda>y. (if link y = [] then title y else link y) = k) (uniq items dedup_key) =
        find (\<lambda>y. (if link y = [] then title y else link y) = k) items)"
proof -
  let ?key = "\<lambda>y. if link y = [] then title y else link y"
  have u: "uniq items dedup_key = uniq_loop ?key items {} []"
    by (simp only: uniq_def dedup_key_fun)
  have "distinct (map ?key (uniq_loop ?key items {} []))"
    by (rule uniq_loop_distinct)
  moreover have "subseq (uniq_loop ?key items {} []) items"
    by (rule uniq_loop_subseq)
  moreover have "find (\<lambda>y. ?key y = k) (uniq_loop ?key items {} []) = find (\<lambda>y. ?key y = k) items"
    for k
    using uniq_loop_find [of ?key k items "{}"] by simp
  ultimately show ?thesis
    by (simp only: u) (simp add: dedup_key_def)
qed

text \<open>Two records with one link and different titles collapse to the first; two records
  without a link are told apart by their titles, and collapse when the titles agree.\<close>

lemma uniq_example:
  "uniq
     [example_item ''First'' ''https://example.org/1'' None,
      example_item ''Second'' ''https://example.org/1'' None,
      example_item ''No link'' '''' None,
      example_item ''Other'' '''' None,
      example_item ''No link'' '''' (Some 5)] dedup_key =
     [example_item ''First'' ''https://example.org/1'' None,
      example_item ''No link'' '''' None,
      example_item ''Other'' '''' None]"
  by (simp add: uniq_def dedup_key_def example_item_def)

subsection \<open>Keyword filter\<close>

lemma matches_keywords_sublist:
  "matches_keywords str_lower text includes excludes \<longleftrightarrow>
     (includes = [] \<or>
        (\<exists>k \<in> set includes. sublist (str_lower k) (str_lower (get_or text '''')))) \<and>
     \<not> (\<exists>k \<in> set excludes. sublist (str_lower k) (str_lower (get_or text '''')))"
  by (auto simp add: matches_keywords_def Let_def list_ex_iff str_in_def)

text \<open>
  Claim C5, as amended. \<^verbatim>\<open>matches_keywords\<close> returns true exactly when the include list
  is empty or the lower-cased form (\<^verbatim>\<open>str.lower\<close>) of some include keyword is a
  substring of the lower-cased text, and the lower-cased form of no exclude keyword is a
  substring of the lower-cased text. When the text and the keywords consist of ASCII
  characters, on which \<^verbatim>\<open>str.lower\<close> is \<open>ascii_lower\<close>, this is: the include list is empty
  or some include keyword occurs in the text without regard to case, and no exclude
  keyword occurs in the text without regard to case. So an exclude match rejects even
  when an include matches, and an empty include list asks for nothing.
\<close>

theorem matches_keywords_lowered_substring:
  "(matches_keywords str_lower text includes excludes \<longleftrightarrow>
      (includes = [] \<or>
         (\<exists>k \<in> set includes. \<exists>ps ss. str_lower (get_or text '''') = ps @ str_lower k @ ss)) \<and>
      \<not> (\<exists>k \<in> set excludes. \<exists>ps ss. str_lower (get_or text '''') = ps @ str_lower k @ ss)) \<and>
   ((\<forall>s. is_ascii s \<longrightarrow> str_lower s = ascii_lower s) \<and>
      is_ascii blob \<and> list_all is_ascii includes \<and> list_all is_ascii excludes \<longrightarrow>
      (matches_keywords str_lower (Some blob) includes excludes \<longleftrightarrow>
         (includes = [] \<or> (\<exists>k \<in> set includes. occurs_ignoring_case k blob)) \<and>
         \<not> (\<exists>k \<in> set excludes. occurs_ignoring_case k blob)))"
proof (intro conjI impI)
  show "matches_keywords str_lower text includes excludes \<longleftrightarrow>
      (includes = [] \<or>
         (\<exists>k \<in> set includes. \<exists>ps ss. str_lower (get_or text '''') = ps @ str_lower k @ ss)) \<and>
      \<not> (\<exists>k \<in> set excludes. \<exists>ps ss. str_lower (get_or text '''') = ps @ str_lower k @ ss)"
    by (simp add: matches_keywords_sublist sublist_def)
next
  assume a: "(\<forall>s. is_ascii s \<longrightarrow> str_lower s = ascii_lower s) \<and>
      is_ascii blob \<and> list_all is_ascii includes \<and> list_all is_ascii excludes"
  then have b: "str_lower blob = ascii_lower blob"
    by simp
  have k: "sublist (str_lower k) (str_lower blob) \<longleftrightarrow> occurs_ignoring_case k blob"
    if "k \<in> set includes \<or> k \<in> set excludes" for k
  proof -
    from a that have "is_ascii k"
      by (auto simp add: list_all_iff)
    with a have "str_lower k = ascii_lower k"
      by simp
    with b show ?thesis
      by (simp add: occurs_ignoring_case_iff)
  qed
  show "matches_keywords str_lower (Some blob) includes excludes \<longleftrightarrow>
         (includes = [] \<or> (\<exists>k \<in> set includes. occurs_ignoring_case k blob)) \<and>
         \<not> (\<exists>k \<in> set excludes. occurs_ignoring_case k blob)"
    using k by (auto simp add: matches_keywords_sublist get_or_def)
qed

text \<open>The two examples of the specification, includes \<^verbatim>\<open>["ai"]\<close> and excludes
  \<^verbatim>\<open>["crypto"]\<close>: "AI regulation update" is admitted, "AI and crypto markets" is
  rejected.\<close>

theorem matches_keywords_lowered_substring_witness:
  "matches_keywords ascii_lower (Some ''AI regulation update'') [''ai''] [''crypto''] \<and>
   \<not> matches_keywords ascii_lower (Some ''AI and crypto markets'') [''ai''] [''crypto'']"
proof -
  have h: "\<forall>s. is_ascii s \<longrightarrow> ascii_lower s = ascii_lower s"
    by simp
  have a: "is_ascii ''AI regulation update''" "is_ascii ''AI and crypto markets''"
    "list_all is_ascii [''ai'']" "list_all is_ascii [''crypto'']"
    by code_simp+
  have o: "occurs_ignoring_case ''ai'' ''AI regulation update''"
    "\<not> occurs_ignoring_case ''crypto'' ''AI regulation update''"
    "occurs_ignoring_case ''crypto'' ''AI and crypto markets''"
    by code_simp+
  from matches_keywords_lowered_substring
      [of ascii_lower "Some ''AI regulation update''" "[''ai'']" "[''crypto'']"
          "''AI regulation update''", THEN conjunct2]
    matches_keywords_lowered_substring
      [of ascii_lower "Some ''AI and crypto markets''" "[''ai'']" "[''crypto'']"
          "''AI and crypto markets''", THEN conjunct2]
    h a o
  show ?thesis
    by (simp del: occurs_ignoring_case.simps starts_ignoring_case.simps)
qed

text \<open>
  Claim C5 as stated fails outside ASCII. \<^verbatim>\<open>str.lower\<close> turns the capital sigma into
  the final sigma at the end of a word and into the medial sigma elsewhere: it maps the
  keyword of the bytes \<^verbatim>\<open>CE 9F CE A3\<close> to \<^verbatim>\<open>CE BF CF 82\<close> and the text
  \<^verbatim>\<open>CE 9F CE A3 CE 9F\<close> to \<^verbatim>\<open>CE BF CF 83 CE BF\<close>. The function passed for \<^verbatim>\<open>str.lower\<close>
  below has these two values. The keyword occurs in the text as it is, and the filter
  does not find it.
\<close>

theorem matches_keywords_final_sigma_counterexample:
  "sublist [CHR 0xCE, CHR 0x9F, CHR 0xCE, CHR 0xA3]
     [CHR 0xCE, CHR 0x9F, CHR 0xCE, CHR 0xA3, CHR 0xCE, CHR 0x9F] \<and>
   \<not> matches_keywords
       (ascii_lower
          ([CHR 0xCE, CHR 0x9F, CHR 0xCE, CHR 0xA3] := [CHR 0xCE, CHR 0xBF, CHR 0xCF, CHR 0x82],
           [CHR 0xCE, CHR 0x9F, CHR 0xCE, CHR 0xA3, CHR 0xCE, CHR 0x9F] :=
             [CHR 0xCE, CHR 0xBF, CHR 0xCF, CHR 0x83, CHR 0xCE, CHR 0xBF]))
       (Some [CHR 0xCE, CHR 0x9F, CHR 0xCE, CHR 0xA3, CHR 0xCE, CHR 0x9F])
       [[CHR 0xCE, CHR 0x9F, CHR 0xCE, CHR 0xA3]] []"
  by (simp add: matches_keywords_def get_or_def str_in_def sublist_Cons_right)

subsection \<open>Sort\<close>

lemma list_sort_reverse_sorted:
  "sorted_wrt (\<lambda>a b. key a \<ge> key b) (list_sort_reverse key xs)"
proof -
  have "sorted (map key (sort_key key (rev xs)))"
    by (rule sorted_sort_key)
  then have "sorted_wrt (\<lambda>a b. key a \<le> key b) (sort_key key (rev xs))"
    by (simp add: sorted_wrt_map)
  then show ?thesis
    by (simp add: list_sort_reverse_def sorted_wrt_rev)
qed

lemma list_sort_reverse_stable:
  "filter (\<lambda>x. key x = k) (list_sort_reverse key xs) = filter (\<lambda>x. key x = k) xs"
proof -
  have "filter (\<lambda>x. key x = k) (rev (sort_key key (rev xs))) =
        rev (filter (\<lambda>x. key x = k) (sort_key key (rev xs)))"
    by (simp add: rev_filter)
  also have "\<dots> = rev (filter (\<lambda>x. key x = k) (rev xs))"
    by (simp only: sort_key_stable)
  also have "\<dots> = filter (\<lambda>x. key x = k) xs"
    by (simp add: rev_filter)
  finally show ?thesis
    by (simp add: list_sort_reverse_def)
qed

lemma list_sort_reverse_mset:
  "mset (list_sort_reverse key xs) = mset xs"
  by (simp add: list_sort_reverse_def)

lemma list_sort_reverse_distinct_map:
  "distinct (map f (list_sort_reverse key xs)) = distinct (map f xs)"
proof -
  have "mset (map f (list_sort_reverse key xs)) = mset (map f xs)"
    by (simp add: list_sort_reverse_mset)
  then show ?thesis
    by (rule mset_eq_imp_distinct_iff)
qed

text \<open>
  Claim C3, as amended. The sort key of a record is the number \<^verbatim>\<open>time.mktime\<close> gives
  for its parsed publish time when it has one, and \<open>0\<close> otherwise: the epoch, which is
  not the oldest possible value. In the sorted list every record without a parsed
  publish time stands after every record whose \<^verbatim>\<open>time.mktime\<close> value is positive (later
  than the epoch), and before every record whose value is negative (earlier than the
  epoch).
\<close>

theorem sort_unknown_relative_to_epoch:
  "(published_parsed x = None \<longrightarrow> sort_key_item tz_west x = 0) \<and>
   (published_parsed x = Some pp \<longrightarrow> sort_key_item tz_west x = mktime tz_west pp) \<and>
   (i < length items \<and> j < length items \<and>
      published_parsed (list_sort_reverse (sort_key_item tz_west) items ! i) = None \<and>
      published_parsed (list_sort_reverse (sort_key_item tz_west) items ! j) = Some pj
      \<longrightarrow> (0 < mktime tz_west pj \<longrightarrow> j < i) \<and> (mktime tz_west pj < 0 \<longrightarrow> i < j))"
proof (intro conjI impI)
  let ?key = "sort_key_item tz_west"
  let ?out = "list_sort_reverse ?key items"
  assume a: "i < length items \<and> j < length items \<and>
      published_parsed (?out ! i) = None \<and> published_parsed (?out ! j) = Some pj"
  have len: "length ?out = length items"
    by (simp add: list_sort_reverse_def)
  have ki: "?key (?out ! i) = 0" and kj: "?key (?out ! j) = mktime tz_west pj"
    using a by (simp_all add: sort_key_item_def)
  from a have ne: "i \<noteq> j" by auto
  have desc: "?key (?out ! m) \<ge> ?key (?out ! n)"
    if "m < n" "n < length items" for m n
    using that len list_sort_reverse_sorted [of ?key items]
    by (simp add: sorted_wrt_iff_nth_less)
  {
    assume pos: "0 < mktime tz_west pj"
    show "j < i"
    proof (rule ccontr)
      assume "\<not> j < i"
      with ne have "i < j" by simp
      with a have "?key (?out ! i) \<ge> ?key (?out ! j)"
        by (simp add: desc)
      with ki kj pos show False by simp
    qed
  }
  {
    assume neg: "mktime tz_west pj < 0"
    show "i < j"
    proof (rule ccontr)
      assume "\<not> i < j"
      with ne have "j < i" by simp
      with a have "?key (?out ! j) \<ge> ?key (?out ! i)"
        by (simp add: desc)
      with ki kj neg show False by simp
    qed
  }
qed (simp_all add: sort_key_item_def)

lemma list_sort_reverse_example:
  "list_sort_reverse (sort_key_item 0)
     [example_item ''Undated'' ''https://example.org/a'' None,
      example_item ''Recent'' ''https://example.org/b'' (Some 1793750400),
      example_item ''Old'' ''https://example.org/c'' (Some (- 86400))] =
     [example_item ''Recent'' ''https://example.org/b'' (Some 1793750400),
      example_item ''Undated'' ''https://example.org/a'' None,
      example_item ''Old'' ''https://example.org/c'' (Some (- 86400))]"
  by (simp add: list_sort_reverse_def sort_key_item_def mktime_def example_item_def)

theorem sort_unknown_relative_to_epoch_witness:
  "published_parsed (list_sort_reverse (sort_key_item 0)
     [example_item ''Undated'' ''https://example.org/a'' None,
      example_item ''Recent'' ''https://example.org/b'' (Some 1793750400),
      example_item ''Old'' ''https://example.org/c'' (Some (- 86400))] ! 1) = None \<and>
   published_parsed (list_sort_reverse (sort_key_item 0)
     [example_item ''Undated'' ''https://example.org/a'' None,
      example_item ''Recent'' ''https://example.org/b'' (Some 1793750400),
      example_item ''Old'' ''https://example.org/c'' (Some (- 86400))] ! 0) = Some (StructTime 1793750400) \<and>
   (0 :: nat) < 1 \<and>
   sort_key_item 0 (example_item ''Undated'' ''https://example.org/a'' None) = 0 \<and>
   sort_key_item 0 (example_item ''Recent'' ''https://example.org/b'' (Some 1793750400)) = 1793750400"
proof -
  let ?items = "[example_item ''Undated'' ''https://example.org/a'' None,
      example_item ''Recent'' ''https://example.org/b'' (Some 1793750400),
      example_item ''Old'' ''https://example.org/c'' (Some (- 86400))]"
  have p: "published_parsed (example_item ''Undated'' ''https://example.org/a'' None) = None"
    "published_parsed (example_item ''Recent'' ''https://example.org/b'' (Some 1793750400)) =
       Some (StructTime 1793750400)"
    by (simp_all add: example_item_def)
  from sort_unknown_relative_to_epoch
    [of "example_item ''Undated'' ''https://example.org/a'' None" 0 "StructTime 0" 1 ?items 0
        "StructTime 1793750400"]
    sort_unknown_relative_to_epoch
    [of "example_item ''Recent'' ''https://example.org/b'' (Some 1793750400)" 0
        "StructTime 1793750400" 1 ?items 0 "StructTime 1793750400"]
    p
  show ?thesis by (simp add: list_sort_reverse_example mktime_def)
qed

text \<open>
  Claim C3 as stated fails: a record dated before the epoch has a smaller key than a
  record without a parsed publish time, and is sorted after it (here on a machine in
  UTC).
\<close>

theorem sort_unknown_before_pre_epoch_counterexample:
  "sort_key_item 0 (example_item ''Old'' ''https://example.org/b'' (Some (- 86400)))
     < sort_key_item 0 (example_item ''Undated'' ''https://example.org/a'' None) \<and>
   list_sort_reverse (sort_key_item 0)
     [example_item ''Undated'' ''https://example.org/a'' None,
      example_item ''Old'' ''https://example.org/b'' (Some (- 86400))] =
     [example_item ''Undated'' ''https://example.org/a'' None,
      example_item ''Old'' ''https://example.org/b'' (Some (- 86400))] \<and>
   published_parsed (example_item ''Undated'' ''https://example.org/a'' None) = None \<and>
   published_parsed (example_item ''Old'' ''https://example.org/b'' (Some (- 86400))) =
     Some (StructTime (- 86400))"
  by (simp add: sort_key_item_def mktime_def list_sort_reverse_def example_item_def)

subsection \<open>Deduplicate, sort, cap\<close>

lemma slice_to_take: "\<exists>n. slice_to xs m = take n xs"
  by (auto simp add: slice_to_def Let_def)

lemma slice_to_length: "0 \<le> m \<Longrightarrow> int (length (slice_to xs m)) \<le> m"
  by (simp add: slice_to_def Let_def)

text \<open>
  Claim C7, as amended. The list that the tail of \<^verbatim>\<open>main\<close> hands to the renderer has no
  two records with the same deduplication key; it is sorted by sort key, descending;
  records with the same sort key stand in the order in which the deduplicated input had
  them (for each key value, the records of the output with this key are an initial
  segment of those of the deduplicated input); and, for a configured maximum that is not
  negative, it has at most that many records.
\<close>

theorem aggregate_output_invariants:
  "distinct (map dedup_key (aggregate tz_west items max_items)) \<and>
   sorted_wrt (\<lambda>a b. sort_key_item tz_west a \<ge> sort_key_item tz_west b)
     (aggregate tz_west items max_items) \<and>
   (\<forall>k. prefix (filter (\<lambda>x. sort_key_item tz_west x = k) (aggregate tz_west items max_items))
               (filter (\<lambda>x. sort_key_item tz_west x = k) (uniq items dedup_key))) \<and>
   (0 \<le> max_items \<longrightarrow> int (length (aggregate tz_west items max_items)) \<le> max_items)"
proof -
  let ?key = "sort_key_item tz_west"
  let ?u = "uniq items dedup_key"
  let ?s = "list_sort_reverse ?key ?u"
  obtain n where out: "aggregate tz_west items max_items = take n ?s"
    using slice_to_take [of ?s max_items] by (auto simp add: aggregate_def Let_def)
  have "distinct (map dedup_key ?u)"
    by (simp add: uniq_def uniq_loop_distinct)
  then have "distinct (map dedup_key ?s)"
    by (simp add: list_sort_reverse_distinct_map)
  then have d: "distinct (map dedup_key (take n ?s))"
    by (simp add: take_map [symmetric])
  have s: "sorted_wrt (\<lambda>a b. ?key a \<ge> ?key b) (take n ?s)"
    using list_sort_reverse_sorted [of ?key ?u] by (rule sorted_wrt_take)
  have p: "prefix (filter (\<lambda>x. ?key x = k) (take n ?s)) (filter (\<lambda>x. ?key x = k) ?u)" for k
  proof -
    have "prefix (filter (\<lambda>x. ?key x = k) (take n ?s)) (filter (\<lambda>x. ?key x = k) ?s)"
      by (rule filter_mono_prefix) (rule take_is_prefix)
    then show ?thesis
      by (simp only: list_sort_reverse_stable)
  qed
  have l: "0 \<le> max_items \<longrightarrow> int (length (aggregate tz_west items max_items)) \<le> max_items"
    by (simp add: aggregate_def Let_def slice_to_length)
  from d s p l show ?thesis
    by (simp only: out) simp
qed

text \<open>The example of the specification for sort and cap, with a duplicate link added.\<close>

lemma aggregate_example:
  "aggregate 0
     [example_item ''One hour'' ''https://example.org/1'' (Some 1793746800),
      example_item ''Three hours'' ''https://example.org/3'' (Some 1793739600),
      example_item ''Two hours'' ''https://example.org/2'' (Some 1793743200),
      example_item ''Copy'' ''https://example.org/1'' (Some 1793750000),
      example_item ''Undated'' ''https://example.org/u'' None] 3 =
     [example_item ''One hour'' ''https://example.org/1'' (Some 1793746800),
      example_item ''Two hours'' ''https://example.org/2'' (Some 1793743200),
      example_item ''Three hours'' ''https://example.org/3'' (Some 1793739600)]"
  by (simp add: aggregate_def uniq_def dedup_key_def list_sort_reverse_def sort_key_item_def
      mktime_def slice_to_def example_item_def)

theorem aggregate_output_invariants_witness:
  "(0 :: int) \<le> 3 \<and>
   int (length (aggregate 0
     [example_item ''One hour'' ''https://example.org/1'' (Some 1793746800),
      example_item ''Three hours'' ''https://example.org/3'' (Some 1793739600),
      example_item ''Two hours'' ''https://example.org/2'' (Some 1793743200),
      example_item ''Copy'' ''https://example.org/1'' (Some 1793750000),
      example_item ''Undated'' ''https://example.org/u'' None] 3)) \<le> 3 \<and>
   distinct (map dedup_key (aggregate 0
     [example_item ''One hour'' ''https://example.org/1'' (Some 1793746800),
      example_item ''Three hours'' ''https://example.org/3'' (Some 1793739600),
      example_item ''Two hours'' ''https://example.org/2'' (Some 1793743200),
      example_item ''Copy'' ''https://example.org/1'' (Some 1793750000),
      example_item ''Undated'' ''https://example.org/u'' None] 3))"
  using aggregate_output_invariants
    [of 0 "[example_item ''One hour'' ''https://example.org/1'' (Some 1793746800),
      example_item ''Three hours'' ''https://example.org/3'' (Some 1793739600),
      example_item ''Two hours'' ''https://example.org/2'' (Some 1793743200),
      example_item ''Copy'' ''https://example.org/1'' (Some 1793750000),
      example_item ''Undated'' ''https://example.org/u'' None]" 3]
  by simp

text \<open>
  Claim C7 as stated fails on the length: a negative maximum drops the last records only,
  and the output is longer than the maximum.
\<close>

theorem aggregate_negative_maximum_counterexample:
  "aggregate 0
     [example_item ''One'' ''https://example.org/1'' (Some 1793746800),
      example_item ''Two'' ''https://example.org/2'' (Some 1793743200),
      example_item ''Three'' ''https://example.org/3'' (Some 1793739600)] (- 1) =
     [example_item ''One'' ''https://example.org/1'' (Some 1793746800),
      example_item ''Two'' ''https://example.org/2'' (Some 1793743200)] \<and>
   \<not> int (length (aggregate 0
     [example_item ''One'' ''https://example.org/1'' (Some 1793746800),
      example_item ''Two'' ''https://example.org/2'' (Some 1793743200),
      example_item ''Three'' ''https://example.org/3'' (Some 1793739600)] (- 1))) \<le> - 1"
  by (simp add: aggregate_def uniq_def dedup_key_def list_sort_reverse_def sort_key_item_def
      mktime_def slice_to_def example_item_def)

subsection \<open>Recency filter\<close>

lemma within_last_days_unknown: "within_last_days tz_west now None days = Inr True"
  by (simp add: within_last_days_def)

text \<open>What the check computes for an entry with a parsed publish time, on representable
  values: the time elapsed since the publish instant, less the offset of the local zone,
  is compared with the window.\<close>

lemma within_last_days_known:
  "representable ((timegm pp + tz_west) * 1000000) \<Longrightarrow>
   representable (now - days * 86400 * 1000000) \<Longrightarrow>
   within_last_days tz_west now (Some pp) days =
     Inr (now - timegm pp * 1000000 - tz_west * 1000000 \<le> days * 86400 * 1000000)"
  by (auto simp add: within_last_days_def fromtimestamp_def minus_days_def datetime_new_def
      mktime_def algebra_simps)

text \<open>On a machine in UTC the comparison is the one between the elapsed time and the
  window, with an inclusive bound.\<close>

lemma within_last_days_utc:
  "representable (timegm pp * 1000000) \<Longrightarrow>
   representable (now - days * 86400 * 1000000) \<Longrightarrow>
   within_last_days 0 now (Some pp) days =
     Inr (now - timegm pp * 1000000 \<le> days * 86400 * 1000000)"
  using within_last_days_known [of pp 0 now days] by simp

text \<open>
  Claim C4. The code at the failing input. Now is 2026-11-04 00:00:00 UTC, the window is
  one day, and the entry was published one day and one second before now. On a machine
  in UTC the entry is rejected, as the claim says. On a machine five hours west of UTC
  (\<^verbatim>\<open>TZ=EST5\<close>) \<^verbatim>\<open>time.mktime\<close> reads the UTC tuple of the entry as local time and
  returns an instant five hours later, and the entry is admitted.
\<close>

theorem within_last_days_local_time_admits_stale:
  "within_last_days 0 1793750400000000 (Some (StructTime 1793663999)) 1 = Inr False \<and>
   within_last_days 18000 1793750400000000 (Some (StructTime 1793663999)) 1 = Inr True"
  by (simp add: within_last_days_def fromtimestamp_def minus_days_def datetime_new_def
      mktime_def representable_def datetime_min_def datetime_max_def)

text \<open>
  Claim C10. The code at the failing input. Now is 2026-11-04 00:00:00 UTC, the window
  is zero days, and the entry is dated one hour after now. On a machine in UTC the entry
  is admitted, as the claim says. On a machine nine hours east of UTC (\<^verbatim>\<open>TZ=JST-9\<close>)
  \<^verbatim>\<open>time.mktime\<close> returns an instant nine hours earlier, eight hours before now, and the
  entry is rejected.
\<close>

theorem within_last_days_local_time_rejects_future:
  "within_last_days 0 1793750400000000 (Some (StructTime 1793754000)) 0 = Inr True \<and>
   within_last_days (- 32400) 1793750400000000 (Some (StructTime 1793754000)) 0 = Inr False"
  by (simp add: within_last_days_def fromtimestamp_def minus_days_def datetime_new_def
      mktime_def representable_def datetime_min_def datetime_max_def)

text \<open>A cutoff before the year 1 cannot be built: the subtraction raises.\<close>

lemma within_last_days_cutoff_out_of_range:
  "within_last_days 0 1793750400000000 (Some (StructTime 1793664000)) 1000000 = Inl OutOfRange"
  by (simp add: within_last_days_def fromtimestamp_def minus_days_def datetime_new_def
      mktime_def representable_def datetime_min_def datetime_max_def)

end
